theory Spec2Isabelle
  imports Complex_Main
begin

section \<open>PositionCombiner (src/positioncombiner/PositionCombiner.cpp)\<close>

text \<open>
  The combiner talks to the shared-memory library (lib/shmemdf: \<open>Source\<close>, \<open>Sink\<close>,
  \<open>NodeState\<close>) whose code is not part of the modelled sources. Every call the combiner
  makes on a \<open>Source\<close> or on its \<open>Sink\<close> is recorded, in program order, as an event of
  a trace kept in the model state; what such a call returns is a parameter of the model.
  C++ member names end in an underscore (\<open>positions_\<close>); the record fields drop it.
\<close>

text \<open>
  Modelled from the spec: the enum \<open>NodeState\<close> is declared in lib/shmemdf, which is
  missing; the spec gives its values as INIT, RUNNING, END.
\<close>

datatype NodeState = INIT | RUNNING | END

datatype event =
    SourceTouch nat string
  | SourceConnect nat
  | SourceRetrieve nat
  | SourceWait nat NodeState
  | SourceClone nat
  | SourcePost nat
  | Combine
  | Warn
  | SinkBind string string
  | SinkRetrieve
  | SinkWait NodeState
  | SharedWrite
  | SinkPost

text \<open>
  The object: \<open>position_sources\<close> holds the names of the \<open>NamedSource\<close>s (a source is
  identified by its index), \<open>positions\<close> the local copies, \<open>shared_position\<close> the content
  of the payload slot that the pointer \<open>shared_position_\<close> refers to.
\<close>

record 'p PositionCombiner =
  name :: string
  position_sink_address :: string
  position_sources :: "string list"
  positions :: "'p list"
  internal_position :: 'p
  shared_position :: 'p
  trace :: "event list"

definition emit :: "event \<Rightarrow> 'p PositionCombiner \<Rightarrow> 'p PositionCombiner" where
  "emit e st = st\<lparr>trace := trace st @ [e]\<rparr>"

text \<open>
  The constructor. \<open>mk_pos addr\<close> is \<open>oat::Position2D pos(addr)\<close>; \<open>pos0\<close> and \<open>slot0\<close>
  are the default-constructed \<open>internal_position_\<close> and the initial slot content.
  \<open>position_source_addresses[0]\<close> on an empty vector is an out-of-range read: \<open>None\<close>.
\<close>

definition PositionCombiner_new ::
  "(string \<Rightarrow> 'p) \<Rightarrow> 'p \<Rightarrow> 'p \<Rightarrow> string list \<Rightarrow> string \<Rightarrow> 'p PositionCombiner option" where
  "PositionCombiner_new mk_pos pos0 slot0 position_source_addresses sink_address =
     (case position_source_addresses of
        [] \<Rightarrow> None
      | a0 # _ \<Rightarrow>
          Some \<lparr> name = ''posicom['' @ a0 @ ''...->'' @ sink_address @ '']'',
                 position_sink_address = sink_address,
                 position_sources = position_source_addresses,
                 positions = map mk_pos position_source_addresses,
                 internal_position = pos0,
                 shared_position = slot0,
                 trace = [] \<rparr>)"

subsection \<open>process()\<close>

text \<open>
  What the library returns during one cycle: the state returned by \<open>wait()\<close> on source
  \<open>i\<close>, the payload \<open>clone()\<close> copies out of source \<open>i\<close>, and the state returned by the
  sink's \<open>wait()\<close> (modelled from the spec, which gives \<open>Sink::wait()\<close> the result type
  \<open>NodeState\<close>; Sink.h is missing).
\<close>

record 'p cycle_env =
  source_wait :: "nat \<Rightarrow> NodeState"
  source_clone :: "nat \<Rightarrow> 'p"
  sink_wait :: NodeState

text \<open>
  The \<open>for\<close> loop of \<open>process()\<close>, from index \<open>i\<close> on. The index starts at 0 and counts
  up, so the loop test \<open>i != position_sources_.size()\<close> is \<open>i < size\<close>. The result is
  \<open>True\<close> when the loop left the function through \<open>return true\<close>.
\<close>

function drain :: "'p cycle_env \<Rightarrow> nat \<Rightarrow> 'p PositionCombiner \<Rightarrow> bool \<times> 'p PositionCombiner" where
  "drain env i st =
     (if i < length (position_sources st) then
        let st1 = emit (SourceWait i (source_wait env i)) st in
        if source_wait env i = END then (True, st1)
        else
          let st2 = emit (SourceClone i) (st1\<lparr>positions := (positions st1)[i := source_clone env i]\<rparr>);
              st3 = emit (SourcePost i) st2
          in drain env (Suc i) st3
      else (False, st))"
  by pat_completeness auto
termination
  by (relation "measure (\<lambda>(env, i, st). length (position_sources st) - i)")
     (auto simp: emit_def)

text \<open>
  \<open>process()\<close>. \<open>combine positions internal\<close> is the virtual \<open>combine(positions_,
  internal_position_)\<close>, which writes its second argument. The value returned by
  \<open>position_sink_.wait()\<close> is discarded by the source; the event records it.
\<close>

definition process ::
  "('p list \<Rightarrow> 'p \<Rightarrow> 'p) \<Rightarrow> 'p cycle_env \<Rightarrow> 'p PositionCombiner \<Rightarrow> bool \<times> 'p PositionCombiner" where
  "process combine env st =
     (case drain env 0 st of
        (True, st') \<Rightarrow> (True, st')
      | (False, st') \<Rightarrow>
          let st1 = emit Combine (st'\<lparr>internal_position := combine (positions st') (internal_position st')\<rparr>);
              st2 = emit (SinkWait (sink_wait env)) st1;
              st3 = emit SharedWrite (st2\<lparr>shared_position := internal_position st2\<rparr>);
              st4 = emit SinkPost st3
          in (False, st4))"

text \<open>The events of source \<open>k\<close> in a cycle in which its \<open>wait()\<close> did not return END.\<close>

definition source_events :: "'p cycle_env \<Rightarrow> nat \<Rightarrow> event list" where
  "source_events env k = [SourceWait k (source_wait env k), SourceClone k, SourcePost k]"

text \<open>The sources drained from index \<open>i\<close> on: those before the first END.\<close>

definition drained :: "'p cycle_env \<Rightarrow> nat \<Rightarrow> nat \<Rightarrow> nat list" where
  "drained env i n = takeWhile (\<lambda>k. source_wait env k \<noteq> END) [i..<n]"

definition is_sink_event :: "event \<Rightarrow> bool" where
  "is_sink_event e = (case e of SinkWait s \<Rightarrow> True | SharedWrite \<Rightarrow> True | SinkPost \<Rightarrow> True
                      | SinkBind a b \<Rightarrow> True | SinkRetrieve \<Rightarrow> True | _ \<Rightarrow> False)"

subsection \<open>connectToNodes()\<close>

text \<open>
  \<open>checkSamplePeriods\<close> (lib/utility, missing) is a parameter here: it returns the
  \<open>bool\<close> result together with the value it writes to its reference argument
  \<open>sample_rate_hz\<close>. \<open>period_sec i\<close> is what
  \<open>retrieve()->sample().period_sec().count()\<close> yields on source \<open>i\<close>. The range-for
  loops visit \<open>position_sources_\<close> in vector order; \<open>enumerate\<close> pairs each name with
  its index. The warning printed on \<open>std::cerr\<close> is the event \<open>Warn\<close>.
\<close>

definition touch_all :: "'p PositionCombiner \<Rightarrow> 'p PositionCombiner" where
  "touch_all st =
     fold (\<lambda>(i, nm) s. emit (SourceTouch i nm) s) (enumerate 0 (position_sources st)) st"

definition connect_all ::
  "(nat \<Rightarrow> 'r) \<Rightarrow> 'p PositionCombiner \<Rightarrow> 'p PositionCombiner \<times> 'r list" where
  "connect_all period_sec st =
     fold (\<lambda>(i, nm) (s, all_ts).
             (emit (SourceRetrieve i) (emit (SourceConnect i) s), all_ts @ [period_sec i]))
          (enumerate 0 (position_sources st)) (st, [])"

definition connectToNodes ::
  "('r list \<Rightarrow> bool \<times> 'r) \<Rightarrow> (nat \<Rightarrow> 'r) \<Rightarrow> 'p PositionCombiner \<Rightarrow> 'p PositionCombiner" where
  "connectToNodes checkSamplePeriods period_sec st =
     (let st1 = touch_all st;
          (st2, all_ts) = connect_all period_sec st1;
          (ok, sample_rate_hz) = checkSamplePeriods all_ts;
          st3 = (if \<not> ok then emit Warn st2 else st2);
          st4 = emit (SinkBind (position_sink_address st3) (position_sink_address st3)) st3
      in emit SinkRetrieve st4)"

definition touch_events :: "string list \<Rightarrow> event list" where
  "touch_events names = map (\<lambda>(i, nm). SourceTouch i nm) (enumerate 0 names)"

definition connect_events :: "string list \<Rightarrow> event list" where
  "connect_events names =
     concat (map (\<lambda>(i, nm). [SourceConnect i, SourceRetrieve i]) (enumerate 0 names))"

subsection \<open>The sample-period check\<close>

text \<open>
  Modelled from the spec: \<open>oat::checkSamplePeriods\<close> lives in lib/utility, which is
  missing. The spec describes a pure function over the advertised periods that detects
  disagreement and returns \<open>effective_rate_hz = 1 / max(periods)\<close>. Periods are taken as
  real numbers. The spec does not say what happens on an empty list.
\<close>

fun checkSamplePeriods :: "real list \<Rightarrow> bool \<times> real" where
  "checkSamplePeriods (p # ps) =
     (let max_period = fold max ps p
      in (list_all (\<lambda>q. q = max_period) (p # ps), 1 / max_period))"

subsection \<open>Example objects\<close>

definition two_sources :: "int PositionCombiner" where
  "two_sources =
     \<lparr> name = ''posicom[a...->c]'', position_sink_address = ''c'',
       position_sources = [''a'', ''b''], positions = [0, 0],
       internal_position = 0, shared_position = 0, trace = [] \<rparr>"

definition cycle_of :: "NodeState \<Rightarrow> NodeState \<Rightarrow> NodeState \<Rightarrow> int cycle_env" where
  "cycle_of w0 w1 ws =
     \<lparr> source_wait = (\<lambda>i. if i = 0 then w0 else w1),
       source_clone = (\<lambda>i. int i + 5),
       sink_wait = ws \<rparr>"

section \<open>HomographyGenerator (src/calibrator/HomographyGenerator.cpp)\<close>

text \<open>
  The OpenCV operations the class uses are parameters: the comparison \<open>==\<close> of two
  \<open>cv::Point2f\<close>, the conversions to \<open>float\<close>, the two estimators and \<open>cv::Mat::empty\<close>.
  \<open>'f\<close> is the coordinate type of \<open>cv::Point2f\<close>, \<open>'d\<close> the type \<open>double\<close> read from
  \<open>std::cin\<close>, \<open>'m\<close> is \<open>cv::Mat\<close>.
\<close>

datatype EstimationMethod = ROBUST | REGULAR | EXACT

record ('f, 'm) HomographyGenerator =
  clicked :: bool
  mouse_pt :: "int \<times> int"
  pixels :: "('f \<times> 'f) list"
  world_points :: "('f \<times> 'f) list"
  homography :: 'm
  homography_valid :: bool
  estimation_method :: EstimationMethod

record ('f, 'd, 'm) opencv =
  point_eq :: "'f \<times> 'f \<Rightarrow> 'f \<times> 'f \<Rightarrow> bool"
  float_of_int :: "int \<Rightarrow> 'f"
  float_of_double :: "'d \<Rightarrow> 'f"
  findHomography :: "('f \<times> 'f) list \<Rightarrow> ('f \<times> 'f) list \<Rightarrow> int \<Rightarrow> 'm"
  getPerspectiveTransform :: "('f \<times> 'f) list \<Rightarrow> ('f \<times> 'f) list \<Rightarrow> 'm"
  mat_empty :: "'m \<Rightarrow> bool"

definition cv_RANSAC :: int where
  "cv_RANSAC = 8"

definition cv_EVENT_LBUTTONDOWN :: int where
  "cv_EVENT_LBUTTONDOWN = 1"

text \<open>
  The constructor: both vectors start empty and \<open>homography_valid_\<close> is false. The
  initial \<open>clicked_\<close>, \<open>mouse_pt_\<close> and \<open>homography_\<close> come from the header (missing).
\<close>

definition HomographyGenerator_new ::
  "EstimationMethod \<Rightarrow> bool \<Rightarrow> int \<times> int \<Rightarrow> 'm \<Rightarrow> ('f, 'm) HomographyGenerator" where
  "HomographyGenerator_new method0 clicked0 mouse0 mat0 =
     \<lparr> clicked = clicked0, mouse_pt = mouse0, pixels = [], world_points = [],
       homography = mat0, homography_valid = False, estimation_method = method0 \<rparr>"

definition onMouseEvent ::
  "int \<Rightarrow> int \<Rightarrow> int \<Rightarrow> ('f, 'm) HomographyGenerator \<Rightarrow> ('f, 'm) HomographyGenerator" where
  "onMouseEvent ev x y st =
     (if ev = cv_EVENT_LBUTTONDOWN then st\<lparr>mouse_pt := (x, y), clicked := True\<rparr> else st)"

text \<open>\<open>std::find(v.begin(), v.end(), value) != v.end()\<close>.\<close>

definition found :: "('f, 'd, 'm) opencv \<Rightarrow> ('f \<times> 'f) list \<Rightarrow> 'f \<times> 'f \<Rightarrow> bool" where
  "found cv v val = list_ex (\<lambda>p. point_eq cv p val) v"

text \<open>
  The loop \<open>for (i = 0; i < num_coords; i++)\<close> of \<open>addDataPoint\<close>: \<open>n\<close> extractions
  \<open>std::cin >> p\<close>. The input is the list of outcomes of the successive extractions
  (\<open>None\<close>: the extraction failed); an exhausted input fails. \<open>None\<close> as result is the
  \<open>throw std::invalid_argument\<close>.
\<close>

fun read_coords :: "nat \<Rightarrow> 'd option list \<Rightarrow> 'd list option" where
  "read_coords 0 inp = Some []"
| "read_coords (Suc n) [] = None"
| "read_coords (Suc n) (None # inp) = None"
| "read_coords (Suc n) (Some p # inp) = map_option (\<lambda>ds. p # ds) (read_coords n inp)"

definition addDataPoint ::
  "('f, 'd, 'm) opencv \<Rightarrow> 'd option list \<Rightarrow> ('f, 'm) HomographyGenerator
     \<Rightarrow> int \<times> ('f, 'm) HomographyGenerator" where
  "addDataPoint cv inp st =
     (if \<not> clicked st then (-1, st)
      else if found cv (pixels st)
                (float_of_int cv (fst (mouse_pt st)), float_of_int cv (snd (mouse_pt st)))
      then (-1, st)
      else
        case read_coords 2 inp of
          None \<Rightarrow> (-1, st)
        | Some dst_pt \<Rightarrow>
            let w = (float_of_double cv (dst_pt ! 0), float_of_double cv (dst_pt ! 1)) in
            if found cv (world_points st) w then (-1, st)
            else (0, st\<lparr>pixels := pixels st @
                            [(float_of_int cv (fst (mouse_pt st)), float_of_int cv (snd (mouse_pt st)))],
                         world_points := world_points st @ [w]\<rparr>))"

text \<open>
  \<open>v.erase(v.begin() + idx)\<close>. Erasing at a position that is not inside the vector is
  undefined behaviour; the model reports it as a fault.
\<close>

datatype fault = OutOfRange

definition erase :: "nat \<Rightarrow> 'a list \<Rightarrow> fault + 'a list" where
  "erase idx v = (if idx < length v then Inr (take idx v @ drop (Suc idx) v) else Inl OutOfRange)"

text \<open>
  \<open>removeDataPoint\<close>: the argument is the outcome of \<open>std::cin >> idx\<close>. \<open>idx\<close> is
  unsigned (\<open>point_size_t\<close>), hence a \<open>nat\<close>, and the test \<open>idx < 0\<close> never holds.
\<close>

definition removeDataPoint ::
  "nat option \<Rightarrow> ('f, 'm) HomographyGenerator \<Rightarrow> fault + (int \<times> ('f, 'm) HomographyGenerator)" where
  "removeDataPoint inp st =
     (case inp of
        None \<Rightarrow> Inr (-1, st)
      | Some idx \<Rightarrow>
          if idx < 0 \<or> idx \<ge> length (pixels st) then Inr (-1, st)
          else
            (case erase idx (pixels st) of
               Inl f \<Rightarrow> Inl f
             | Inr px \<Rightarrow>
                 (case erase idx (world_points st) of
                    Inl f \<Rightarrow> Inl f
                  | Inr wp \<Rightarrow> Inr (0, st\<lparr>pixels := px, world_points := wp\<rparr>))))"

text \<open>The tail of \<open>generateHomography\<close>, after the \<open>switch\<close>.\<close>

definition report_homography ::
  "('f, 'd, 'm) opencv \<Rightarrow> ('f, 'm) HomographyGenerator \<Rightarrow> int \<times> ('f, 'm) HomographyGenerator" where
  "report_homography cv st =
     (if \<not> mat_empty cv (homography st) then (0, st\<lparr>homography_valid := True\<rparr>) else (-1, st))"

definition generateHomography ::
  "('f, 'd, 'm) opencv \<Rightarrow> ('f, 'm) HomographyGenerator \<Rightarrow> int \<times> ('f, 'm) HomographyGenerator" where
  "generateHomography cv st =
     (if length (pixels st) < 4 then (-1, st)
      else
        case estimation_method st of
          ROBUST \<Rightarrow>
            report_homography cv
              (st\<lparr>homography := findHomography cv (pixels st) (world_points st) cv_RANSAC\<rparr>)
        | REGULAR \<Rightarrow>
            report_homography cv
              (st\<lparr>homography := findHomography cv (pixels st) (world_points st) 0\<rparr>)
        | EXACT \<Rightarrow>
            if length (pixels st) \<noteq> 4 then (-1, st)
            else report_homography cv
              (st\<lparr>homography := getPerspectiveTransform cv (pixels st) (world_points st)\<rparr>))"

text \<open>The matrix that \<open>generateHomography\<close> assigns to \<open>homography_\<close>, if it gets that far.\<close>

definition computed_homography ::
  "('f, 'd, 'm) opencv \<Rightarrow> ('f, 'm) HomographyGenerator \<Rightarrow> 'm option" where
  "computed_homography cv st =
     (if length (pixels st) < 4 then None
      else
        case estimation_method st of
          ROBUST \<Rightarrow> Some (findHomography cv (pixels st) (world_points st) cv_RANSAC)
        | REGULAR \<Rightarrow> Some (findHomography cv (pixels st) (world_points st) 0)
        | EXACT \<Rightarrow>
            if length (pixels st) \<noteq> 4 then None
            else Some (getPerspectiveTransform cv (pixels st) (world_points st)))"

subsection \<open>Example objects\<close>

text \<open>Integer coordinates; a matrix is a list of entries, empty when it has none.\<close>

definition int_cv :: "(int, int, int list) opencv" where
  "int_cv =
     \<lparr> point_eq = (\<lambda>p q. p = q), float_of_int = (\<lambda>x. x), float_of_double = (\<lambda>x. x),
       findHomography = (\<lambda>src dst m. []),
       getPerspectiveTransform = (\<lambda>src dst. [1, 0, 0, 0, 1, 0, 0, 0, 1]),
       mat_empty = (\<lambda>m. m = []) \<rparr>"

definition calib :: "nat \<Rightarrow> EstimationMethod \<Rightarrow> (int, int list) HomographyGenerator" where
  "calib n m =
     \<lparr> clicked = True, mouse_pt = (7, 7),
       pixels = map (\<lambda>k. (int k, 0)) [0..<n], world_points = map (\<lambda>k. (0, int k)) [0..<n],
       homography = [], homography_valid = False, estimation_method = m \<rparr>"

section \<open>RandomAccel2D (src/positiontester/RandomAccel2D.cpp)\<close>

text \<open>
  The numbers are taken as reals. \<open>state\<close> and \<open>accel_vec\<close> are the column vectors
  \<open>cv::Matx\<close> of 4 and 2 entries, the matrices are lists of rows. \<open>'g\<close> is the state of
  the random generator; drawing from \<open>accel_distribution\<close> is a parameter that returns
  the number drawn and the new generator state.
\<close>

record 'g RandomAccel2D =
  sample_period_in_seconds :: real
  state :: "real list"
  accel_vec :: "real list"
  state_transition_mat :: "real list list"
  input_mat :: "real list list"
  accel_generator :: 'g

text \<open>\<open>M * v\<close> and \<open>u + v\<close> of \<open>cv::Matx\<close>.\<close>

definition mat_vec :: "real list list \<Rightarrow> real list \<Rightarrow> real list" where
  "mat_vec M v = map (\<lambda>row. sum_list (map2 (*) row v)) M"

definition vec_add :: "real list \<Rightarrow> real list \<Rightarrow> real list" where
  "vec_add u v = map2 (+) u v"

definition createStaticMatracies :: "'g RandomAccel2D \<Rightarrow> 'g RandomAccel2D" where
  "createStaticMatracies st =
     st\<lparr> state_transition_mat :=
           [[1, sample_period_in_seconds st, 0, 0],
            [0, 1, 0, 0],
            [0, 0, 1, sample_period_in_seconds st],
            [0, 0, 0, 1]],
         input_mat :=
           [[(sample_period_in_seconds st * sample_period_in_seconds st) / 2, 0],
            [sample_period_in_seconds st, 0],
            [0, (sample_period_in_seconds st * sample_period_in_seconds st) / 2],
            [0, sample_period_in_seconds st]] \<rparr>"

text \<open>
  The constructor: the base class sets \<open>sample_period_in_seconds\<close> to its default
  \<open>dt0\<close> (declared in a missing header), then the body builds the matrices and zeroes
  the state.
\<close>

definition RandomAccel2D_new :: "real \<Rightarrow> 'g \<Rightarrow> 'g RandomAccel2D" where
  "RandomAccel2D_new dt0 g0 =
     (createStaticMatracies
        \<lparr> sample_period_in_seconds = dt0, state = [0, 0, 0, 0], accel_vec = [0, 0],
          state_transition_mat = replicate 4 (replicate 4 0),
          input_mat = replicate 4 (replicate 2 0),
          accel_generator = g0 \<rparr>)
     \<lparr> state := [0, 0, 0, 0] \<rparr>"

text \<open>
  \<open>configure\<close>: the argument is what parsing the file gives for \<open>config_key\<close>: no table
  (the process exits: \<open>None\<close>), or a table with or without the key \<open>dt\<close>.
\<close>

datatype config = NoTable | Table "real option"

definition configure :: "config \<Rightarrow> 'g RandomAccel2D \<Rightarrow> 'g RandomAccel2D option" where
  "configure cfg st =
     (case cfg of
        NoTable \<Rightarrow> None
      | Table None \<Rightarrow> Some st
      | Table (Some dt) \<Rightarrow> Some (st\<lparr>sample_period_in_seconds := dt\<rparr>))"

definition simulateMotion :: "('g \<Rightarrow> real \<times> 'g) \<Rightarrow> 'g RandomAccel2D \<Rightarrow> 'g RandomAccel2D" where
  "simulateMotion accel_distribution st =
     (let (a0, g1) = accel_distribution (accel_generator st);
          (a1, g2) = accel_distribution g1;
          st1 = st\<lparr>accel_vec := [a0, a1], accel_generator := g2\<rparr>
      in st1\<lparr>state := vec_add (mat_vec (state_transition_mat st1) (state st1))
                                (mat_vec (input_mat st1) (accel_vec st1))\<rparr>)"

text \<open>The step the kinematics asks for, with time step \<open>dt\<close> and accelerations \<open>ax\<close>, \<open>ay\<close>.\<close>

definition kinematics_step :: "real \<Rightarrow> real \<Rightarrow> real \<Rightarrow> real list \<Rightarrow> real list" where
  "kinematics_step dt ax ay s =
     [s ! 0 + dt * s ! 1 + (dt ^ 2 / 2) * ax,
      s ! 1 + dt * ax,
      s ! 2 + dt * s ! 3 + (dt ^ 2 / 2) * ay,
      s ! 3 + dt * ay]"

section \<open>Properties of PositionCombiner\<close>

subsection \<open>The drain loop in closed form\<close>

declare drain.simps [simp del]

lemma drain_closed:
  "drain env i st =
     (let n = length (position_sources st);
          ks = drained env i n;
          j = i + length ks
      in (j < n,
          st\<lparr>positions := fold (\<lambda>k ps. ps[k := source_clone env k]) ks (positions st),
             trace := trace st @ concat (map (source_events env) ks)
                        @ (if j < n then [SourceWait j END] else [])\<rparr>))"
proof (induction env i st rule: drain.induct)
  case (1 env i st)
  let ?n = "length (position_sources st)"
  show ?case
  proof (cases "i < ?n")
    case False
    then show ?thesis
      by (subst drain.simps) (simp add: drained_def)
  next
    case lt: True
    then have upt: "[i..<?n] = i # [Suc i..<?n]" by (simp add: upt_conv_Cons)
    show ?thesis
    proof (cases "source_wait env i = END")
      case True
      with lt show ?thesis
        by (subst drain.simps) (simp add: drained_def upt emit_def)
    next
      case False
      define st3 where "st3 = emit (SourcePost i) (emit (SourceClone i)
         ((emit (SourceWait i (source_wait env i)) st)
            \<lparr>positions := (positions (emit (SourceWait i (source_wait env i)) st))[i := source_clone env i]\<rparr>))"
      have step: "drain env i st = drain env (Suc i) st3"
        using lt False by (subst drain.simps) (simp add: st3_def Let_def)
      have ih: "drain env (Suc i) st3 = (let n = length (position_sources st3);
          ks = drained env (Suc i) n;
          j = Suc i + length ks
      in (j < n,
          st3\<lparr>positions := fold (\<lambda>k ps. ps[k := source_clone env k]) ks (positions st3),
             trace := trace st3 @ concat (map (source_events env) ks)
                        @ (if j < n then [SourceWait j END] else [])\<rparr>))"
        using "1.IH"[OF lt refl False refl refl] unfolding st3_def .
      have n3: "length (position_sources st3) = ?n" by (simp add: st3_def emit_def)
      have dr: "drained env i ?n = i # drained env (Suc i) ?n"
        using False by (simp add: drained_def upt)
      show ?thesis
        unfolding step ih
        by (simp add: Let_def n3 dr) (simp add: st3_def emit_def source_events_def)
    qed
  qed
qed

lemma drained_all:
  "(\<forall>i<n. source_wait env i \<noteq> END) \<Longrightarrow> drained env 0 n = [0..<n]"
  by (simp add: drained_def)

lemma drained_upt: "drained env 0 n = [0..<length (drained env 0 n)]"
proof -
  have "drained env 0 n = take (length (drained env 0 n)) [0..<n]"
    unfolding drained_def by (rule takeWhile_eq_take)
  moreover have "length (drained env 0 n) \<le> n"
    unfolding drained_def using length_takeWhile_le[of _ "[0..<n]"] by simp
  ultimately show ?thesis by (metis take_upt add_0 )
qed

lemma drained_stop:
  assumes "i < n" "source_wait env i = END"
  shows "length (drained env 0 n) \<le> i \<and> source_wait env (length (drained env 0 n)) = END"
proof -
  let ?j = "length (drained env 0 n)"
  have le: "?j \<le> i"
  proof (rule ccontr)
    assume "\<not> ?j \<le> i"
    then have "i \<in> set [0..<?j]" by simp
    then have "i \<in> set (drained env 0 n)" using drained_upt[of env n] by simp
    then have "source_wait env i \<noteq> END"
      unfolding drained_def by (auto dest: set_takeWhileD)
    with assms show False by simp
  qed
  then have "?j < length [0..<n]" using assms by simp
  then have "\<not> (source_wait env ([0..<n] ! ?j) \<noteq> END)"
    unfolding drained_def by (rule nth_length_takeWhile)
  with le assms show ?thesis by simp
qed

lemma drained_running: "k \<in> set (drained env 0 n) \<Longrightarrow> source_wait env k \<noteq> END"
  unfolding drained_def by (auto dest: set_takeWhileD)

lemma drained_length_le: "length (drained env 0 n) \<le> n"
  unfolding drained_def using length_takeWhile_le[of _ "[0..<n]"] by simp

lemma drained_full_iff:
  "(length (drained env 0 n) < n) = (\<exists>i<n. source_wait env i = END)"
proof
  assume "length (drained env 0 n) < n"
  then have "length (drained env 0 n) < length [0..<n]" by simp
  then have "\<not> (source_wait env ([0..<n] ! length (drained env 0 n)) \<noteq> END)"
    unfolding drained_def by (rule nth_length_takeWhile)
  with \<open>length (drained env 0 n) < n\<close> show "\<exists>i<n. source_wait env i = END" by auto
next
  assume "\<exists>i<n. source_wait env i = END"
  then obtain i where "i < n" "source_wait env i = END" by blast
  then show "length (drained env 0 n) < n" using drained_stop[of i n env] by simp
qed

lemma process_closed:
  "process combine env st =
     (let n = length (position_sources st);
          ks = drained env 0 n;
          ps = fold (\<lambda>k ps. ps[k := source_clone env k]) ks (positions st)
      in if length ks < n
         then (True, st\<lparr>positions := ps,
                         trace := trace st @ concat (map (source_events env) ks)
                                    @ [SourceWait (length ks) END]\<rparr>)
         else (False, st\<lparr>positions := ps,
                          internal_position := combine ps (internal_position st),
                          shared_position := combine ps (internal_position st),
                          trace := trace st @ concat (map (source_events env) ks)
                                     @ [Combine, SinkWait (sink_wait env), SharedWrite, SinkPost]\<rparr>))"
  by (simp add: process_def drain_closed Let_def emit_def)

subsection \<open>Shutdown of an upstream source\<close>

lemma source_events_not_sink: "e \<in> set (concat (map (source_events env) ks)) \<Longrightarrow> \<not> is_sink_event e \<and> e \<noteq> Combine \<and> e \<noteq> SharedWrite"
  by (auto simp: source_events_def is_sink_event_def)

text \<open>
  C1. If \<open>wait()\<close> on some upstream source returns END, \<open>process()\<close> returns true at
  once: the END wait is the last call of the cycle, no call is made on the downstream
  sink, \<open>combine\<close> is not applied and the shared output value is not written.
\<close>

theorem process_source_END:
  assumes "i < length (position_sources st)" and "source_wait env i = END"
  shows "fst (process combine env st) = True
       \<and> shared_position (snd (process combine env st)) = shared_position st
       \<and> internal_position (snd (process combine env st)) = internal_position st
       \<and> (\<exists>j\<le>i. source_wait env j = END \<and>
            trace (snd (process combine env st)) =
              trace st @ concat (map (source_events env) [0..<j]) @ [SourceWait j END])
       \<and> (\<forall>e \<in> set (drop (length (trace st)) (trace (snd (process combine env st)))).
            \<not> is_sink_event e \<and> e \<noteq> Combine)"
proof -
  let ?n = "length (position_sources st)"
  let ?ks = "drained env 0 ?n"
  have lt: "length ?ks < ?n" using assms drained_full_iff[of env ?n] by blast
  have stop: "length ?ks \<le> i \<and> source_wait env (length ?ks) = END"
    using drained_stop[OF assms] .
  have ks: "?ks = [0..<length ?ks]" by (rule drained_upt)
  have tr: "trace (snd (process combine env st)) =
      trace st @ concat (map (source_events env) ?ks) @ [SourceWait (length ?ks) END]"
    using lt by (simp add: process_closed Let_def)
  have "\<exists>j\<le>i. source_wait env j = END \<and>
            trace (snd (process combine env st)) =
              trace st @ concat (map (source_events env) [0..<j]) @ [SourceWait j END]"
    using stop tr ks by metis
  moreover have "\<forall>e \<in> set (drop (length (trace st)) (trace (snd (process combine env st)))).
            \<not> is_sink_event e \<and> e \<noteq> Combine"
    unfolding tr using source_events_not_sink[of _ env ?ks]
    by (auto simp: is_sink_event_def)
  ultimately show ?thesis using lt by (simp add: process_closed Let_def)
qed

theorem process_source_END_witness:
  "(1::nat) < length (position_sources two_sources)
   \<and> source_wait (cycle_of RUNNING END RUNNING) 1 = END
   \<and> process (\<lambda>ps p. sum_list ps) (cycle_of RUNNING END RUNNING) two_sources =
       (True, two_sources\<lparr>positions := [5, 0],
                trace := [SourceWait 0 RUNNING, SourceClone 0, SourcePost 0, SourceWait 1 END]\<rparr>)"
  using process_source_END [of 1 two_sources "cycle_of RUNNING END RUNNING" "\<lambda>ps p. sum_list ps"]
  by (simp add: process_closed two_sources_def source_events_def Let_def cycle_of_def drained_def)

subsection \<open>A complete cycle\<close>





subsection \<open>The value returned by process()\<close>

lemma source_wait_in_events:
  "SourceWait i s \<in> set (concat (map (source_events env) ks)) \<Longrightarrow> i \<in> set ks \<and> s = source_wait env i"
  by (auto simp: source_events_def)

text \<open>
  C4, as the code has it. The sink's \<open>wait()\<close> returning END leaves the result false.
\<close>

theorem process_sink_END_returns_false:
  "process (\<lambda>ps p. sum_list ps) (cycle_of RUNNING RUNNING END) two_sources =
     (False, two_sources\<lparr>positions := [5, 6], internal_position := 11, shared_position := 11,
         trace := [SourceWait 0 RUNNING, SourceClone 0, SourcePost 0,
                   SourceWait 1 RUNNING, SourceClone 1, SourcePost 1,
                   Combine, SinkWait END, SharedWrite, SinkPost]\<rparr>)"
  by (simp add: process_closed two_sources_def source_events_def Let_def cycle_of_def drained_def)

text \<open>
  C4, amended. \<open>process()\<close> returns true exactly when the \<open>wait()\<close> of some upstream source
  returns END, which is exactly when an END \<open>wait()\<close> of a source is among the calls of the
  cycle; the state returned by the sink's \<open>wait()\<close> does not enter the result.
\<close>

theorem process_result:
  "fst (process combine env st) = (\<exists>i. i < length (position_sources st) \<and> source_wait env i = END)
   \<and> fst (process combine env st) =
       (\<exists>i. SourceWait i END \<in> set (drop (length (trace st)) (trace (snd (process combine env st)))))
   \<and> fst (process combine (env\<lparr>sink_wait := s\<rparr>) st) = fst (process combine env st)"
proof -
  let ?n = "length (position_sources st)"
  let ?ks = "drained env 0 ?n"
  have a: "fst (process combine env st) = (\<exists>i. i < ?n \<and> source_wait env i = END)"
    using drained_full_iff[of env ?n] by (simp add: process_closed Let_def)
  have b: "fst (process combine env st) =
       (\<exists>i. SourceWait i END \<in> set (drop (length (trace st)) (trace (snd (process combine env st)))))"
  proof (cases "length ?ks < ?n")
    case True
    then show ?thesis by (auto simp: process_closed Let_def)
  next
    case False
    have "\<And>i. SourceWait i END \<notin> set (concat (map (source_events env) ?ks))"
      using source_wait_in_events[of _ END env ?ks] drained_running[of _ env ?n] by metis
    with False show ?thesis by (simp add: process_closed Let_def)
  qed
  have c: "drained (env\<lparr>sink_wait := s\<rparr>) 0 ?n = ?ks" by (simp add: drained_def)
  have "fst (process combine (env\<lparr>sink_wait := s\<rparr>) st) = fst (process combine env st)"
    by (simp add: process_closed Let_def c)
  with a b show ?thesis by blast
qed

theorem process_result_witness:
  "(1 < length (position_sources two_sources)
      \<and> source_wait (cycle_of RUNNING END RUNNING) 1 = END)
   \<and> fst (process (\<lambda>ps p. sum_list ps) (cycle_of RUNNING END RUNNING) two_sources)
   \<and> \<not> fst (process (\<lambda>ps p. sum_list ps) (cycle_of RUNNING RUNNING RUNNING) two_sources)
   \<and> \<not> fst (process (\<lambda>ps p. sum_list ps)
               ((cycle_of RUNNING RUNNING RUNNING)\<lparr>sink_wait := END\<rparr>) two_sources)"
proof -
  have a: "1 < length (position_sources two_sources)
      \<and> source_wait (cycle_of RUNNING END RUNNING) 1 = END"
    by (simp add: two_sources_def cycle_of_def)
  have b: "fst (process (\<lambda>ps p. sum_list ps) (cycle_of RUNNING END RUNNING) two_sources)"
    using process_result [of "\<lambda>ps p. sum_list ps" "cycle_of RUNNING END RUNNING" two_sources,
            THEN conjunct1] a
    by blast
  have "\<not> (\<exists>i. i < length (position_sources two_sources)
              \<and> source_wait (cycle_of RUNNING RUNNING RUNNING) i = END)"
    by (simp add: cycle_of_def)
  then have c: "\<not> fst (process (\<lambda>ps p. sum_list ps) (cycle_of RUNNING RUNNING RUNNING) two_sources)"
    using process_result [of "\<lambda>ps p. sum_list ps" "cycle_of RUNNING RUNNING RUNNING" two_sources,
            THEN conjunct1]
    by blast
  have d: "\<not> fst (process (\<lambda>ps p. sum_list ps)
               ((cycle_of RUNNING RUNNING RUNNING)\<lparr>sink_wait := END\<rparr>) two_sources)"
    using process_result [of "\<lambda>ps p. sum_list ps" "cycle_of RUNNING RUNNING RUNNING" two_sources END,
            THEN conjunct2, THEN conjunct2] c
    by blast
  from a b c d show ?thesis by blast
qed

subsection \<open>connectToNodes() in closed form\<close>

lemma fold_emit:
  "fold (\<lambda>(i, nm) s. emit (g i nm) s) xs st = st\<lparr>trace := trace st @ map (\<lambda>(i, nm). g i nm) xs\<rparr>"
  by (induction xs arbitrary: st) (auto simp: emit_def)

lemma touch_all_closed:
  "touch_all st = st\<lparr>trace := trace st @ touch_events (position_sources st)\<rparr>"
  unfolding touch_all_def touch_events_def by (rule fold_emit)

lemma fold_connect:
  "fold (\<lambda>(i, nm) (s, all_ts).
           (emit (SourceRetrieve i) (emit (SourceConnect i) s), all_ts @ [period_sec i])) xs (st, ts)
   = (st\<lparr>trace := trace st @ concat (map (\<lambda>(i, nm). [SourceConnect i, SourceRetrieve i]) xs)\<rparr>,
      ts @ map (\<lambda>(i, nm). period_sec i) xs)"
  by (induction xs arbitrary: st ts) (auto simp: emit_def)

lemma map_index_enumerate: "map (\<lambda>(i, nm). f i) (enumerate 0 xs) = map f [0..<length xs]"
proof -
  have "map (\<lambda>(i, nm). f i) (enumerate 0 xs) = map (f \<circ> fst) (enumerate 0 xs)"
    by (simp add: case_prod_unfold comp_def)
  also have "\<dots> = map f (map fst (enumerate 0 xs))"
    by (simp only: map_map)
  finally show ?thesis by simp
qed

lemma connect_all_closed:
  "connect_all period_sec st =
     (st\<lparr>trace := trace st @ connect_events (position_sources st)\<rparr>,
      map period_sec [0..<length (position_sources st)])"
  unfolding connect_all_def connect_events_def
  by (simp add: fold_connect map_index_enumerate)

lemma connectToNodes_closed:
  "connectToNodes chk period_sec st =
     st\<lparr>trace := trace st @ touch_events (position_sources st) @ connect_events (position_sources st)
          @ (if fst (chk (map period_sec [0..<length (position_sources st)])) then [] else [Warn])
          @ [SinkBind (position_sink_address st) (position_sink_address st), SinkRetrieve]\<rparr>"
  by (simp add: connectToNodes_def touch_all_closed connect_all_closed emit_def
        case_prod_unfold Let_def)

lemma length_touch_events [simp]: "length (touch_events names) = length names"
  by (simp add: touch_events_def)

lemma nth_touch_events: "i < length names \<Longrightarrow> touch_events names ! i = SourceTouch i (names ! i)"
  by (simp add: touch_events_def nth_enumerate_eq)

lemma connect_in_events:
  "SourceConnect j \<in> set (connect_events names) \<Longrightarrow> j < length names"
  by (auto simp: connect_events_def in_set_enumerate_eq)

text \<open>
  C5. When the check reports the periods inconsistent, \<open>connectToNodes()\<close> does what it
  does otherwise and prints the warning: the object is unchanged but for the calls made,
  which are the touches, the connects, the warning, then \<open>bind\<close> and \<open>retrieve\<close> on the
  sink; with a check that reports consistency the calls are the same without the warning.
\<close>

theorem inconsistent_rates_only_warn:
  assumes "\<not> fst (chk (map period_sec [0..<length (position_sources st)]))"
  shows "connectToNodes chk period_sec st =
           st\<lparr>trace := trace st @ touch_events (position_sources st)
                @ connect_events (position_sources st)
                @ [Warn, SinkBind (position_sink_address st) (position_sink_address st), SinkRetrieve]\<rparr>
       \<and> connectToNodes (\<lambda>ts. (True, snd (chk ts))) period_sec st =
           st\<lparr>trace := trace st @ touch_events (position_sources st)
                @ connect_events (position_sources st)
                @ [SinkBind (position_sink_address st) (position_sink_address st), SinkRetrieve]\<rparr>"
  using assms by (simp add: connectToNodes_closed)

theorem inconsistent_rates_only_warn_witness:
  "\<not> fst (checkSamplePeriods (map (\<lambda>i. if i = 0 then 0.02 else 0.025)
            [0..<length (position_sources two_sources)]))
   \<and> connectToNodes checkSamplePeriods (\<lambda>i. if i = 0 then 0.02 else 0.025) two_sources =
       two_sources\<lparr>trace := [SourceTouch 0 ''a'', SourceTouch 1 ''b'',
                              SourceConnect 0, SourceRetrieve 0, SourceConnect 1, SourceRetrieve 1,
                              Warn, SinkBind ''c'' ''c'', SinkRetrieve]\<rparr>"
  using inconsistent_rates_only_warn [of checkSamplePeriods "\<lambda>i. if i = 0 then 0.02 else 0.025" two_sources]
  by (simp add: two_sources_def touch_events_def connect_events_def enumerate_eq_zip upt_rec)

text \<open>
  C6. The first N calls of \<open>connectToNodes()\<close> are the \<open>touch(name)\<close> of the sources
  0, ..., N-1; every \<open>connect()\<close> comes after them, and is on one of these sources.
\<close>

theorem touch_before_connect:
  "(\<forall>i<length (position_sources st).
       drop (length (trace st)) (trace (connectToNodes chk period_sec st)) ! i =
         SourceTouch i (position_sources st ! i))
   \<and> (\<forall>k<length (drop (length (trace st)) (trace (connectToNodes chk period_sec st))). \<forall>j.
         drop (length (trace st)) (trace (connectToNodes chk period_sec st)) ! k = SourceConnect j \<longrightarrow>
           length (position_sources st) \<le> k \<and> j < length (position_sources st))"
proof -
  let ?names = "position_sources st"
  let ?n = "length ?names"
  let ?rest = "connect_events ?names
          @ (if fst (chk (map period_sec [0..<?n])) then [] else [Warn])
          @ [SinkBind (position_sink_address st) (position_sink_address st), SinkRetrieve]"
  let ?new = "drop (length (trace st)) (trace (connectToNodes chk period_sec st))"
  have new: "?new = touch_events ?names @ ?rest"
    by (simp add: connectToNodes_closed)
  have touches: "\<forall>i<?n. ?new ! i = SourceTouch i (?names ! i)"
    unfolding new by (simp add: nth_append nth_touch_events)
  have connects: "length (position_sources st) \<le> k \<and> j < length (position_sources st)"
    if k: "k < length ?new" and c: "?new ! k = SourceConnect j" for k j
  proof -
    have ge: "?n \<le> k"
    proof (rule ccontr)
      assume "\<not> ?n \<le> k"
      then have "k < ?n" by simp
      with touches c show False by simp
    qed
    then have "?new ! k = ?rest ! (k - ?n)"
      unfolding new by (simp add: nth_append)
    moreover have "k - ?n < length ?rest" using k ge unfolding new by simp
    ultimately have "SourceConnect j \<in> set ?rest" using c by (metis nth_mem)
    then have "SourceConnect j \<in> set (connect_events ?names)" by (auto split: if_splits)
    then show ?thesis using ge connect_in_events by blast
  qed
  show ?thesis using touches connects by blast
qed

theorem touch_before_connect_witness:
  "drop (length (trace two_sources))
     (trace (connectToNodes (\<lambda>ts. (True, 0::real)) (\<lambda>i. 1) two_sources)) =
     [SourceTouch 0 ''a'', SourceTouch 1 ''b'',
      SourceConnect 0, SourceRetrieve 0, SourceConnect 1, SourceRetrieve 1,
      SinkBind ''c'' ''c'', SinkRetrieve]
   \<and> drop (length (trace two_sources))
        (trace (connectToNodes (\<lambda>ts. (True, 0::real)) (\<lambda>i. 1) two_sources)) ! 0 =
       SourceTouch 0 (position_sources two_sources ! 0)
   \<and> drop (length (trace two_sources))
        (trace (connectToNodes (\<lambda>ts. (True, 0::real)) (\<lambda>i. 1) two_sources)) ! 1 =
       SourceTouch 1 (position_sources two_sources ! 1)
   \<and> drop (length (trace two_sources))
        (trace (connectToNodes (\<lambda>ts. (True, 0::real)) (\<lambda>i. 1) two_sources)) ! 2 =
       SourceConnect 0
   \<and> length (position_sources two_sources) \<le> 2"
  using touch_before_connect [of two_sources "\<lambda>ts. (True, 0::real)" "\<lambda>i. 1"]
  by (simp add: connectToNodes_closed two_sources_def touch_events_def connect_events_def
        enumerate_eq_zip upt_rec)

subsection \<open>The write to the shared slot\<close>

lemma write_position:
  assumes "SharedWrite \<notin> set A"
    and "k < length (A @ [Combine, W, SharedWrite, SinkPost])"
    and "(A @ [Combine, W, SharedWrite, SinkPost]) ! k = SharedWrite"
    and "W \<noteq> SharedWrite"
  shows "k = length A + 2"
proof -
  have ge: "length A \<le> k"
  proof (rule ccontr)
    assume "\<not> length A \<le> k"
    then have "k < length A" by simp
    then have "A ! k \<in> set A" and "(A @ [Combine, W, SharedWrite, SinkPost]) ! k = A ! k"
      by (simp_all add: nth_append)
    with assms show False by simp
  qed
  define d where "d = k - length A"
  have k: "k = length A + d" using ge by (simp add: d_def)
  have "d < 4" using assms(2) k by simp
  then consider "d = 0" | "d = 1" | "d = 2" | "d = 3" by linarith
  then have "d = 2"
    using assms(3,4) unfolding k by cases (simp_all add: nth_append)
  then show ?thesis using k by simp
qed

text \<open>
  C7. Take an object on which \<open>retrieve()\<close> of the sink has been called, as
  \<open>connectToNodes()\<close> leaves it. If no upstream \<open>wait()\<close> returns END, the cycle makes
  the calls of the sources, then \<open>combine\<close>, then on the sink \<open>wait()\<close>, the write of the
  combined value to the shared slot and \<open>post()\<close>: one write, between this cycle's
  \<open>wait()\<close> and \<open>post()\<close>. If some upstream \<open>wait()\<close> returns END, the cycle does not
  write. In either case a write has the sink's \<open>wait()\<close> right before it, the sink's
  \<open>post()\<close> right after it and the \<open>retrieve()\<close> somewhere before it; no cycle calls
  \<open>retrieve()\<close>, so the next cycle starts from such an object again.
  \<open>connectToNodes()\<close> ends with the \<open>retrieve()\<close> and does not write.
\<close>

theorem shared_write_inside_window:
  assumes "SinkRetrieve \<in> set (trace st)"
  shows "((\<forall>i<length (position_sources st). source_wait env i \<noteq> END) \<longrightarrow>
            drop (length (trace st)) (trace (snd (process combine env st))) =
              concat (map (source_events env) [0..<length (position_sources st)])
                @ [Combine, SinkWait (sink_wait env), SharedWrite, SinkPost]
            \<and> shared_position (snd (process combine env st)) =
                combine (fold (\<lambda>k ps. ps[k := source_clone env k])
                           [0..<length (position_sources st)] (positions st))
                        (internal_position st)
            \<and> count_list (drop (length (trace st)) (trace (snd (process combine env st))))
                 SharedWrite = 1)
       \<and> ((\<exists>i. i < length (position_sources st) \<and> source_wait env i = END) \<longrightarrow>
            SharedWrite \<notin> set (drop (length (trace st)) (trace (snd (process combine env st))))
            \<and> shared_position (snd (process combine env st)) = shared_position st)
       \<and> (\<forall>k<length (drop (length (trace st)) (trace (snd (process combine env st)))).
            drop (length (trace st)) (trace (snd (process combine env st))) ! k = SharedWrite \<longrightarrow>
              0 < k
              \<and> drop (length (trace st)) (trace (snd (process combine env st))) ! (k - 1) =
                  SinkWait (sink_wait env)
              \<and> Suc k < length (drop (length (trace st)) (trace (snd (process combine env st))))
              \<and> drop (length (trace st)) (trace (snd (process combine env st))) ! Suc k = SinkPost)
       \<and> (\<forall>k<length (trace (snd (process combine env st))).
            trace (snd (process combine env st)) ! k = SharedWrite \<and> length (trace st) \<le> k \<longrightarrow>
              (\<exists>r<k. trace (snd (process combine env st)) ! r = SinkRetrieve))
       \<and> SinkRetrieve \<notin> set (drop (length (trace st)) (trace (snd (process combine env st))))
       \<and> SinkRetrieve \<in> set (trace (snd (process combine env st)))
       \<and> SharedWrite \<notin> set (drop (length (trace st0)) (trace (connectToNodes chk period_sec st0)))
       \<and> last (trace (connectToNodes chk period_sec st0)) = SinkRetrieve
       \<and> SinkRetrieve \<in> set (trace (connectToNodes chk period_sec st0))"
proof -
  let ?n = "length (position_sources st)"
  let ?ks = "drained env 0 ?n"
  let ?A = "concat (map (source_events env) ?ks)"
  let ?W = "SinkWait (sink_wait env)"
  let ?st' = "snd (process combine env st)"
  let ?new = "drop (length (trace st)) (trace ?st')"
  have A: "SharedWrite \<notin> set ?A" "SinkRetrieve \<notin> set ?A"
    by (auto simp: source_events_def)
  have cnt: "count_list ?A SharedWrite = 0" using A(1) by (simp add: count_list_0_iff)
  have conn: "SharedWrite \<notin> set (drop (length (trace st0)) (trace (connectToNodes chk period_sec st0)))
      \<and> last (trace (connectToNodes chk period_sec st0)) = SinkRetrieve
      \<and> SinkRetrieve \<in> set (trace (connectToNodes chk period_sec st0))"
    by (auto simp: connectToNodes_closed touch_events_def connect_events_def)
  have ext: "trace ?st' = trace st @ ?new"
    by (simp add: process_closed Let_def)
  obtain r where r: "r < length (trace st)" "trace st ! r = SinkRetrieve"
    using assms by (auto simp: in_set_conv_nth)
  have before: "\<exists>r<k. trace ?st' ! r = SinkRetrieve" if "length (trace st) \<le> k" for k
  proof -
    have "trace ?st' ! r = SinkRetrieve"
      by (subst ext) (simp add: nth_append r)
    moreover have "r < k" using r(1) that by simp
    ultimately show ?thesis by blast
  qed
  have keep: "SinkRetrieve \<in> set (trace ?st')"
    by (subst ext) (simp add: assms)
  show ?thesis
  proof (cases "length ?ks < ?n")
    case True
    then have new: "?new = ?A @ [SourceWait (length ?ks) END]"
      and sh: "shared_position ?st' = shared_position st"
      by (simp_all add: process_closed Let_def)
    have some: "\<exists>i. i < ?n \<and> source_wait env i = END"
      using True drained_full_iff[of env ?n] by blast
    then have notall: "\<not> (\<forall>i<?n. source_wait env i \<noteq> END)" by blast
    have no: "SharedWrite \<notin> set ?new" "SinkRetrieve \<notin> set ?new"
      unfolding new using A by simp_all
    then have "\<forall>k<length ?new. ?new ! k \<noteq> SharedWrite" by (metis nth_mem)
    with no sh notall conn before keep show ?thesis by simp
  next
    case False
    then have all: "\<forall>i<?n. source_wait env i \<noteq> END"
      using drained_full_iff[of env ?n] by blast
    then have ks: "?ks = [0..<?n]" by (rule drained_all)
    have none: "\<not> (\<exists>i. i < ?n \<and> source_wait env i = END)" using all by blast
    from False have new: "?new = ?A @ [Combine, ?W, SharedWrite, SinkPost]"
      and sh: "shared_position ?st' =
            combine (fold (\<lambda>k ps. ps[k := source_clone env k]) ?ks (positions st))
              (internal_position st)"
      by (simp_all add: process_closed Let_def)
    have win: "0 < k \<and> ?new ! (k - 1) = ?W \<and> Suc k < length ?new \<and> ?new ! Suc k = SinkPost"
      if "k < length ?new" "?new ! k = SharedWrite" for k
    proof -
      have "k = length ?A + 2"
        using write_position[OF A(1), of k ?W] that unfolding new by simp
      then show ?thesis unfolding new by (simp add: nth_append)
    qed
    have c1: "count_list ?new SharedWrite = 1" unfolding new using cnt by simp
    have nr: "SinkRetrieve \<notin> set ?new" unfolding new using A(2) by simp
    have full: "?new = concat (map (source_events env) [0..<?n])
                @ [Combine, ?W, SharedWrite, SinkPost]"
      using new ks by simp
    have sh': "shared_position ?st' =
            combine (fold (\<lambda>k ps. ps[k := source_clone env k]) [0..<?n] (positions st))
              (internal_position st)"
      using sh ks by simp
    show ?thesis using full sh' c1 none win before nr keep conn by blast
  qed
qed

theorem shared_write_inside_window_witness:
  "SinkRetrieve \<in> set (trace (connectToNodes (\<lambda>ts. (True, 0::real)) (\<lambda>i. 1) two_sources))
   \<and> length (position_sources (connectToNodes (\<lambda>ts. (True, 0::real)) (\<lambda>i. 1) two_sources)) = 2
   \<and> source_wait (cycle_of RUNNING RUNNING RUNNING) 0 \<noteq> END
   \<and> source_wait (cycle_of RUNNING RUNNING RUNNING) 1 \<noteq> END
   \<and> trace (snd (process (\<lambda>ps p. sum_list ps) (cycle_of RUNNING RUNNING RUNNING)
                  (connectToNodes (\<lambda>ts. (True, 0::real)) (\<lambda>i. 1) two_sources))) =
       [SourceTouch 0 ''a'', SourceTouch 1 ''b'',
        SourceConnect 0, SourceRetrieve 0, SourceConnect 1, SourceRetrieve 1,
        SinkBind ''c'' ''c'', SinkRetrieve,
        SourceWait 0 RUNNING, SourceClone 0, SourcePost 0,
        SourceWait 1 RUNNING, SourceClone 1, SourcePost 1,
        Combine, SinkWait RUNNING, SharedWrite, SinkPost]
   \<and> shared_position (snd (process (\<lambda>ps p. sum_list ps) (cycle_of RUNNING RUNNING RUNNING)
                  (connectToNodes (\<lambda>ts. (True, 0::real)) (\<lambda>i. 1) two_sources))) = 11
   \<and> source_wait (cycle_of END RUNNING RUNNING) 0 = END
   \<and> SharedWrite \<notin> set (drop (length (trace (connectToNodes (\<lambda>ts. (True, 0::real)) (\<lambda>i. 1) two_sources)))
        (trace (snd (process (\<lambda>ps p. sum_list ps) (cycle_of END RUNNING RUNNING)
                  (connectToNodes (\<lambda>ts. (True, 0::real)) (\<lambda>i. 1) two_sources)))))
   \<and> shared_position (snd (process (\<lambda>ps p. sum_list ps) (cycle_of END RUNNING RUNNING)
                  (connectToNodes (\<lambda>ts. (True, 0::real)) (\<lambda>i. 1) two_sources))) = 0"
proof -
  let ?c = "connectToNodes (\<lambda>ts. (True, 0::real)) (\<lambda>i. 1) two_sources"
  let ?f = "\<lambda>(ps::int list) (p::int). sum_list ps"
  have c: "?c = two_sources\<lparr>trace := [SourceTouch 0 ''a'', SourceTouch 1 ''b'',
        SourceConnect 0, SourceRetrieve 0, SourceConnect 1, SourceRetrieve 1,
        SinkBind ''c'' ''c'', SinkRetrieve]\<rparr>"
    by (simp add: connectToNodes_closed two_sources_def touch_events_def connect_events_def
          enumerate_eq_zip upt_rec)
  have h: "SinkRetrieve \<in> set (trace ?c)" unfolding c by simp
  have n: "length (position_sources ?c) = 2" "positions ?c = [0, 0]" "shared_position ?c = 0"
    unfolding c by (simp_all add: two_sources_def)
  have run: "\<forall>i<length (position_sources ?c). source_wait (cycle_of RUNNING RUNNING RUNNING) i \<noteq> END"
    by (simp add: cycle_of_def)
  have stop: "\<exists>i. i < length (position_sources ?c) \<and> source_wait (cycle_of END RUNNING RUNNING) i = END"
    unfolding n by (rule exI[of _ 0]) (simp add: cycle_of_def)
  note full = shared_write_inside_window [OF h, of "cycle_of RUNNING RUNNING RUNNING" ?f,
                THEN conjunct1, THEN mp, OF run]
  note cut = shared_write_inside_window [OF h, of "cycle_of END RUNNING RUNNING" ?f,
                THEN conjunct2, THEN conjunct1, THEN mp, OF stop]
  have tr: "trace (snd (process ?f (cycle_of RUNNING RUNNING RUNNING) ?c)) =
       [SourceTouch 0 ''a'', SourceTouch 1 ''b'',
        SourceConnect 0, SourceRetrieve 0, SourceConnect 1, SourceRetrieve 1,
        SinkBind ''c'' ''c'', SinkRetrieve,
        SourceWait 0 RUNNING, SourceClone 0, SourcePost 0,
        SourceWait 1 RUNNING, SourceClone 1, SourcePost 1,
        Combine, SinkWait RUNNING, SharedWrite, SinkPost]"
    unfolding c
    by (simp add: process_closed two_sources_def source_events_def Let_def cycle_of_def drained_def)
  have v: "shared_position (snd (process ?f (cycle_of RUNNING RUNNING RUNNING) ?c)) = 11"
    using full [THEN conjunct2, THEN conjunct1] unfolding n
    by (simp add: cycle_of_def upt_rec numeral_2_eq_2)
  have nw: "SharedWrite \<notin> set (drop (length (trace ?c))
        (trace (snd (process ?f (cycle_of END RUNNING RUNNING) ?c))))"
    using cut by blast
  have v0: "shared_position (snd (process ?f (cycle_of END RUNNING RUNNING) ?c)) = 0"
    using cut n(3) by simp
  have w: "source_wait (cycle_of RUNNING RUNNING RUNNING) 0 \<noteq> END"
    "source_wait (cycle_of RUNNING RUNNING RUNNING) 1 \<noteq> END"
    "source_wait (cycle_of END RUNNING RUNNING) 0 = END"
    by (simp_all add: cycle_of_def)
  from h n(1) w tr v nw v0 show ?thesis by blast
qed

section \<open>Properties of the sample-period check\<close>

lemma fold_max_Max: "fold max ps (p::real) = Max (set (p # ps))"
  by (rule Max.set_eq_fold [symmetric])

text \<open>
  C2. On a non-empty list the check reports consistency exactly when all periods agree,
  and the rate is the inverse of the largest period; on 0.01, 0.01, 0.02 it gives
  inconsistent and 50, on 0.02, 0.025 it gives the rate 40.
\<close>

theorem checkSamplePeriods_spec:
  assumes "periods \<noteq> []"
  shows "fst (checkSamplePeriods periods) = (\<forall>p\<in>set periods. \<forall>q\<in>set periods. p = q)
       \<and> snd (checkSamplePeriods periods) = 1 / Max (set periods)
       \<and> checkSamplePeriods [0.01, 0.01, 0.02] = (False, 50)
       \<and> snd (checkSamplePeriods [0.02, 0.025]) = 40"
proof -
  obtain p ps where ps: "periods = p # ps" using assms by (cases periods) auto
  let ?m = "Max (set (p # ps))"
  have mem: "?m \<in> set (p # ps)" by (rule Max_in) simp_all
  have "(\<forall>q\<in>set (p # ps). q = ?m) = (\<forall>a\<in>set (p # ps). \<forall>b\<in>set (p # ps). a = b)"
    using mem by metis
  then have a: "fst (checkSamplePeriods periods) = (\<forall>p\<in>set periods. \<forall>q\<in>set periods. p = q)"
    unfolding ps by (simp only: checkSamplePeriods.simps fold_max_Max Let_def fst_conv list_all_iff)
  have b: "snd (checkSamplePeriods periods) = 1 / Max (set periods)"
    unfolding ps by (simp only: checkSamplePeriods.simps fold_max_Max Let_def snd_conv)
  have c: "checkSamplePeriods [0.01, 0.01, 0.02] = (False, 50)" by simp
  have d: "snd (checkSamplePeriods [0.02, 0.025]) = 40" by simp
  show ?thesis using a b c d by blast
qed

theorem checkSamplePeriods_spec_witness:
  "[0.01, 0.01, 0.02] \<noteq> ([]::real list)
   \<and> fst (checkSamplePeriods [0.01, 0.01, 0.02]) = False
   \<and> snd (checkSamplePeriods [0.01, 0.01, 0.02]) = 1 / 0.02
   \<and> fst (checkSamplePeriods [0.02, 0.02]) = True"
  using checkSamplePeriods_spec [of "[0.01, 0.01, 0.02]"] checkSamplePeriods_spec [of "[0.02, 0.02]"]
  by simp

section \<open>Properties of HomographyGenerator\<close>

lemma calib_2_points:
  "pixels (calib 2 m) = [(0, 0), (1, 0)]" "world_points (calib 2 m) = [(0, 0), (0, 1)]"
  "clicked (calib 2 m)" "mouse_pt (calib 2 m) = (7, 7)"
  by (simp_all add: calib_def numeral_2_eq_2)

lemma calib_fields:
  "length (pixels (calib n m)) = n" "length (world_points (calib n m)) = n"
  "estimation_method (calib n m) = m" "homography_valid (calib n m) = False"
  by (simp_all add: calib_def)

lemma read_coords_two:
  "read_coords 2 inp =
     (case inp of Some a # Some b # rest \<Rightarrow> Some [a, b] | _ \<Rightarrow> None)"
  by (simp add: numeral_2_eq_2 split: list.split option.split)

lemma addDataPoint_cases:
  "(fst (addDataPoint cv inp st) = 0
      \<and> (\<exists>p w. pixels (snd (addDataPoint cv inp st)) = pixels st @ [p]
               \<and> world_points (snd (addDataPoint cv inp st)) = world_points st @ [w]))
   \<or> (fst (addDataPoint cv inp st) = -1 \<and> snd (addDataPoint cv inp st) = st)"
  by (simp add: addDataPoint_def Let_def split: option.split)

lemma removeDataPoint_cases:
  assumes "length (pixels st) = length (world_points st)"
  shows "(\<exists>i st'. inp = Some i \<and> i < length (pixels st)
            \<and> removeDataPoint inp st = Inr (0, st')
            \<and> pixels st' = take i (pixels st) @ drop (Suc i) (pixels st)
            \<and> world_points st' = take i (world_points st) @ drop (Suc i) (world_points st))
       \<or> removeDataPoint inp st = Inr (-1, st)"
  using assms by (cases inp) (auto simp: removeDataPoint_def erase_def)

text \<open>
  C8. Starting from point sets of equal length, \<open>addDataPoint\<close> appends one point to each
  set and returns 0, or returns -1 and changes nothing; \<open>removeDataPoint\<close> erases the
  index read from both sets (without a fault) and returns 0, or returns -1 and changes
  nothing. Either way the two sets have equal length afterwards. The sets of a new object
  are empty, and \<open>generateHomography\<close> and \<open>onMouseEvent\<close> do not touch them.
\<close>

theorem point_sets_equal_length:
  assumes "length (pixels st) = length (world_points st)"
  shows "((fst (addDataPoint cv inp st) = 0
            \<and> (\<exists>p w. pixels (snd (addDataPoint cv inp st)) = pixels st @ [p]
                     \<and> world_points (snd (addDataPoint cv inp st)) = world_points st @ [w]))
          \<or> (fst (addDataPoint cv inp st) = -1 \<and> snd (addDataPoint cv inp st) = st))
       \<and> length (pixels (snd (addDataPoint cv inp st))) =
           length (world_points (snd (addDataPoint cv inp st)))
       \<and> (\<exists>r st'. removeDataPoint idx st = Inr (r, st')
            \<and> ((r = 0 \<and> (\<exists>i. idx = Some i \<and> i < length (pixels st)
                    \<and> pixels st' = take i (pixels st) @ drop (Suc i) (pixels st)
                    \<and> world_points st' = take i (world_points st) @ drop (Suc i) (world_points st)))
                \<or> (r = -1 \<and> st' = st))
            \<and> length (pixels st') = length (world_points st'))
       \<and> pixels (snd (generateHomography cv st)) = pixels st
       \<and> world_points (snd (generateHomography cv st)) = world_points st
       \<and> pixels (onMouseEvent ev x y st) = pixels st
       \<and> world_points (onMouseEvent ev x y st) = world_points st
       \<and> pixels (HomographyGenerator_new m0 c0 p0 h0 :: ('a, 'c) HomographyGenerator) = []
       \<and> world_points (HomographyGenerator_new m0 c0 p0 h0 :: ('a, 'c) HomographyGenerator) = []"
proof -
  have add: "(fst (addDataPoint cv inp st) = 0
            \<and> (\<exists>p w. pixels (snd (addDataPoint cv inp st)) = pixels st @ [p]
                     \<and> world_points (snd (addDataPoint cv inp st)) = world_points st @ [w]))
          \<or> (fst (addDataPoint cv inp st) = -1 \<and> snd (addDataPoint cv inp st) = st)"
    by (rule addDataPoint_cases)
  then have add_len: "length (pixels (snd (addDataPoint cv inp st))) =
           length (world_points (snd (addDataPoint cv inp st)))"
    using assms by auto
  have rem: "\<exists>r st'. removeDataPoint idx st = Inr (r, st')
            \<and> ((r = 0 \<and> (\<exists>i. idx = Some i \<and> i < length (pixels st)
                    \<and> pixels st' = take i (pixels st) @ drop (Suc i) (pixels st)
                    \<and> world_points st' = take i (world_points st) @ drop (Suc i) (world_points st)))
                \<or> (r = -1 \<and> st' = st))
            \<and> length (pixels st') = length (world_points st')"
    using removeDataPoint_cases[OF assms, of idx]
  proof
    assume "\<exists>i st'. idx = Some i \<and> i < length (pixels st)
            \<and> removeDataPoint idx st = Inr (0, st')
            \<and> pixels st' = take i (pixels st) @ drop (Suc i) (pixels st)
            \<and> world_points st' = take i (world_points st) @ drop (Suc i) (world_points st)"
    then obtain i st' where h: "idx = Some i" "i < length (pixels st)"
        "removeDataPoint idx st = Inr (0, st')"
        "pixels st' = take i (pixels st) @ drop (Suc i) (pixels st)"
        "world_points st' = take i (world_points st) @ drop (Suc i) (world_points st)"
      by blast
    then have "length (pixels st') = length (world_points st')" using assms by simp
    with h show ?thesis by blast
  next
    assume "removeDataPoint idx st = Inr (-1, st)"
    then show ?thesis using assms by blast
  qed
  have gen: "pixels (snd (generateHomography cv st)) = pixels st
       \<and> world_points (snd (generateHomography cv st)) = world_points st"
    by (simp add: generateHomography_def report_homography_def split: EstimationMethod.split)
  have mouse: "pixels (onMouseEvent ev x y st) = pixels st
       \<and> world_points (onMouseEvent ev x y st) = world_points st"
    by (simp add: onMouseEvent_def)
  have new: "pixels (HomographyGenerator_new m0 c0 p0 h0 :: ('a, 'c) HomographyGenerator) = []
       \<and> world_points (HomographyGenerator_new m0 c0 p0 h0 :: ('a, 'c) HomographyGenerator) = []"
    by (simp add: HomographyGenerator_new_def)
  show ?thesis using add add_len rem gen mouse new by blast
qed

theorem point_sets_equal_length_witness:
  "length (pixels (calib 2 EXACT)) = length (world_points (calib 2 EXACT))
   \<and> length (pixels (snd (addDataPoint int_cv [Some 3, Some 4] (calib 2 EXACT)))) =
       length (world_points (snd (addDataPoint int_cv [Some 3, Some 4] (calib 2 EXACT))))
   \<and> addDataPoint int_cv [Some 3, Some 4] (calib 2 EXACT) =
       (0, (calib 2 EXACT)\<lparr>pixels := [(0, 0), (1, 0), (7, 7)],
                            world_points := [(0, 0), (0, 1), (3, 4)]\<rparr>)
   \<and> addDataPoint int_cv [Some 3, None] (calib 2 EXACT) = (-1, calib 2 EXACT)
   \<and> removeDataPoint (Some 0) (calib 2 EXACT) =
       Inr (0, (calib 2 EXACT)\<lparr>pixels := [(1, 0)], world_points := [(0, 1)]\<rparr>)
   \<and> removeDataPoint (Some 2) (calib 2 EXACT) = Inr (-1, calib 2 EXACT)"
proof -
  have h: "length (pixels (calib 2 EXACT)) = length (world_points (calib 2 EXACT))"
    by (simp add: calib_fields)
  have e: "length (pixels (snd (addDataPoint int_cv [Some 3, Some 4] (calib 2 EXACT)))) =
       length (world_points (snd (addDataPoint int_cv [Some 3, Some 4] (calib 2 EXACT))))"
    by (rule point_sets_equal_length [OF h, THEN conjunct2, THEN conjunct1])
  have a: "addDataPoint int_cv [Some 3, Some 4] (calib 2 EXACT) =
       (0, (calib 2 EXACT)\<lparr>pixels := [(0, 0), (1, 0), (7, 7)],
                            world_points := [(0, 0), (0, 1), (3, 4)]\<rparr>)"
    by (simp add: addDataPoint_def found_def calib_2_points int_cv_def read_coords_two)
  have b: "addDataPoint int_cv [Some 3, None] (calib 2 EXACT) = (-1, calib 2 EXACT)"
    by (simp add: addDataPoint_def found_def calib_2_points int_cv_def read_coords_two)
  have c: "removeDataPoint (Some 0) (calib 2 EXACT) =
       Inr (0, (calib 2 EXACT)\<lparr>pixels := [(1, 0)], world_points := [(0, 1)]\<rparr>)"
    by (simp add: removeDataPoint_def erase_def calib_2_points)
  have d: "removeDataPoint (Some 2) (calib 2 EXACT) = Inr (-1, calib 2 EXACT)"
    by (simp add: removeDataPoint_def calib_fields)
  from h e a b c d show ?thesis by (intro conjI)
qed

text \<open>
  C9. With fewer than 4 data points, and under EXACT with a number of points other than 4,
  \<open>generateHomography\<close> returns -1 and changes nothing. Otherwise the matrix computed
  is stored; the result is 0 and \<open>homography_valid_\<close> is assigned true when this matrix is
  not empty, else the result is -1 and the flag keeps its value.
\<close>

theorem generateHomography_result:
  "((length (pixels st) < 4 \<or> (estimation_method st = EXACT \<and> length (pixels st) \<noteq> 4))
       \<longrightarrow> generateHomography cv st = (-1, st))
   \<and> (computed_homography cv st = None) =
       (length (pixels st) < 4 \<or> (estimation_method st = EXACT \<and> length (pixels st) \<noteq> 4))
   \<and> (\<forall>m. computed_homography cv st = Some m \<longrightarrow>
         generateHomography cv st =
           (if \<not> mat_empty cv m then (0, st\<lparr>homography := m, homography_valid := True\<rparr>)
            else (-1, st\<lparr>homography := m\<rparr>)))
   \<and> homography_valid (snd (generateHomography cv st)) =
       (homography_valid st \<or> (\<exists>m. computed_homography cv st = Some m \<and> \<not> mat_empty cv m))
   \<and> (fst (generateHomography cv st) = 0) =
       (\<exists>m. computed_homography cv st = Some m \<and> \<not> mat_empty cv m)
   \<and> (fst (generateHomography cv st) \<noteq> 0 \<longrightarrow> fst (generateHomography cv st) = -1)"
  by (cases "estimation_method st")
     (auto simp: generateHomography_def computed_homography_def report_homography_def)

theorem generateHomography_result_witness:
  "length (pixels (calib 3 ROBUST)) < 4
   \<and> generateHomography int_cv (calib 3 ROBUST) = (-1, calib 3 ROBUST)
   \<and> estimation_method (calib 5 EXACT) = EXACT \<and> length (pixels (calib 5 EXACT)) \<noteq> 4
   \<and> generateHomography int_cv (calib 5 EXACT) = (-1, calib 5 EXACT)
   \<and> computed_homography int_cv (calib 4 EXACT) = Some [1, 0, 0, 0, 1, 0, 0, 0, 1]
   \<and> generateHomography int_cv (calib 4 EXACT) =
       (0, (calib 4 EXACT)\<lparr>homography := [1, 0, 0, 0, 1, 0, 0, 0, 1], homography_valid := True\<rparr>)
   \<and> computed_homography int_cv (calib 4 ROBUST) = Some []
   \<and> generateHomography int_cv (calib 4 ROBUST) = (-1, (calib 4 ROBUST)\<lparr>homography := []\<rparr>)"
proof -
  have h3: "length (pixels (calib 3 ROBUST)) < 4" by (simp add: calib_fields)
  have h5: "estimation_method (calib 5 EXACT) = EXACT" "length (pixels (calib 5 EXACT)) \<noteq> 4"
    by (simp_all add: calib_fields)
  have r3: "generateHomography int_cv (calib 3 ROBUST) = (-1, calib 3 ROBUST)"
    using generateHomography_result [of "calib 3 ROBUST" int_cv, THEN conjunct1] h3 by blast
  have r5: "generateHomography int_cv (calib 5 EXACT) = (-1, calib 5 EXACT)"
    using generateHomography_result [of "calib 5 EXACT" int_cv, THEN conjunct1] h5 by blast
  have c4: "computed_homography int_cv (calib 4 EXACT) = Some [1, 0, 0, 0, 1, 0, 0, 0, 1]"
    by (simp add: computed_homography_def calib_fields) (simp add: int_cv_def)
  have e4: "\<not> mat_empty int_cv [1, 0, 0, 0, 1, 0, 0, 0, 1]" by (simp add: int_cv_def)
  have r4: "generateHomography int_cv (calib 4 EXACT) =
       (0, (calib 4 EXACT)\<lparr>homography := [1, 0, 0, 0, 1, 0, 0, 0, 1], homography_valid := True\<rparr>)"
    using generateHomography_result [of "calib 4 EXACT" int_cv, THEN conjunct2, THEN conjunct2,
            THEN conjunct1, rule_format, OF c4] e4
    by simp
  have c4r: "computed_homography int_cv (calib 4 ROBUST) = Some []"
    by (simp add: computed_homography_def calib_fields) (simp add: int_cv_def)
  have e4r: "mat_empty int_cv []" by (simp add: int_cv_def)
  have r4r: "generateHomography int_cv (calib 4 ROBUST) = (-1, (calib 4 ROBUST)\<lparr>homography := []\<rparr>)"
    using generateHomography_result [of "calib 4 ROBUST" int_cv, THEN conjunct2, THEN conjunct2,
            THEN conjunct1, rule_format, OF c4r] e4r
    by simp
  from h3 r3 h5 r5 c4 r4 c4r r4r show ?thesis by (intro conjI)
qed

section \<open>Properties of RandomAccel2D\<close>

text \<open>
  With the matrices built from the current sample period, one call of \<open>simulateMotion\<close>
  is the kinematics step for that period and the two accelerations drawn.
\<close>

lemma simulateMotion_fresh_matrices:
  assumes "state st = [x, vx, y, vy]"
    and "accel_distribution (accel_generator st) = (ax, g1)"
    and "accel_distribution g1 = (ay, g2)"
  shows "state (simulateMotion accel_distribution (createStaticMatracies st)) =
           kinematics_step (sample_period_in_seconds st) ax ay (state st)"
  using assms
  by (simp add: simulateMotion_def createStaticMatracies_def mat_vec_def vec_add_def
        kinematics_step_def power2_eq_square)

text \<open>
  C10, as the code has it. \<open>configure\<close> stores a new sample period and leaves the
  matrices as the constructor built them: an object constructed with period 1 and
  configured with \<open>dt = 2\<close> steps with period 1, not with its \<open>sample_period_in_seconds\<close>.
\<close>

theorem simulateMotion_stale_period:
  "configure (Table (Some 2)) (RandomAccel2D_new 1 ()) =
     Some ((RandomAccel2D_new 1 ())\<lparr>sample_period_in_seconds := 2\<rparr>)
   \<and> sample_period_in_seconds ((RandomAccel2D_new 1 ())\<lparr>sample_period_in_seconds := 2\<rparr>) = 2
   \<and> state ((RandomAccel2D_new 1 ())\<lparr>sample_period_in_seconds := 2\<rparr>) = [0, 0, 0, 0]
   \<and> state (simulateMotion (\<lambda>g. (1, g)) ((RandomAccel2D_new 1 ())\<lparr>sample_period_in_seconds := 2\<rparr>)) =
       [1 / 2, 1, 1 / 2, 1]
   \<and> kinematics_step 2 1 1 [0, 0, 0, 0] = [2, 2, 2, 2]
   \<and> kinematics_step 1 1 1 [0, 0, 0, 0] = [1 / 2, 1, 1 / 2, 1]"
  by (simp add: configure_def RandomAccel2D_new_def createStaticMatracies_def simulateMotion_def
        mat_vec_def vec_add_def kinematics_step_def)

end
